theory Spec2Isabelle
  imports Main "HOL-Library.Sublist"
begin

section \<open>JavaScript strings: split, replace, numeric coercion\<close>

text \<open>
  A JavaScript string is modelled as a \<open>string\<close>; a \<open>char\<close> stands for the UTF-16 code unit
  of the same value, so the model covers strings whose code units are below 256.
\<close>

text \<open>
  \<^verbatim>\<open>s.split(sep)\<close> for a one-character separator: the pieces between the separators, in
  order. The result is never empty: \<^verbatim>\<open>''.split('.')\<close> is \<^verbatim>\<open>['']\<close>.
\<close>

function str_split :: "char \<Rightarrow> string \<Rightarrow> string list" where
  "str_split sep s =
     (case dropWhile (\<lambda>c. c \<noteq> sep) s of
        [] \<Rightarrow> [takeWhile (\<lambda>c. c \<noteq> sep) s]
      | _ # rest \<Rightarrow> takeWhile (\<lambda>c. c \<noteq> sep) s # str_split sep rest)"
  by pat_completeness auto
termination
proof (relation "measure (\<lambda>(sep, s). length s)")
  show "wf (measure (\<lambda>(sep, s). length s))" by simp
next
  fix sep :: char and s :: string and x rest
  assume "dropWhile (\<lambda>c. c \<noteq> sep) s = x # rest"
  then have "length (x # rest) \<le> length s"
    using length_dropWhile_le [of "\<lambda>c. c \<noteq> sep" s] by simp
  then show "((sep, rest), (sep, s)) \<in> measure (\<lambda>(sep, s). length s)" by simp
qed

declare str_split.simps [simp del]

text \<open>\<^verbatim>\<open>segs.join('.')\<close>, the inverse of \<^verbatim>\<open>split('.')\<close> on a non-empty list.\<close>

fun join_dot :: "string list \<Rightarrow> string" where
  "join_dot [] = []"
| "join_dot [s] = s"
| "join_dot (s # t # ts) = s @ CHR ''.'' # join_dot (t # ts)"

text \<open>\<^verbatim>\<open>s.replace(/a/g, b)\<close> for single characters \<open>a\<close> and \<open>b\<close>.\<close>

definition replace_all_char :: "char \<Rightarrow> char \<Rightarrow> string \<Rightarrow> string" where
  "replace_all_char a b s = map (\<lambda>c. if c = a then b else c) s"

text \<open>
  The characters that are syntax in a regular-expression pattern. A text without them,
  used as a pattern, matches itself and nothing else.
\<close>

definition regex_syntax_char :: "char \<Rightarrow> bool" where
  "regex_syntax_char c \<longleftrightarrow>
     c \<in> {CHR ''^'', CHR ''$'', CHR 0x5C, CHR ''.'', CHR ''*'', CHR ''+'', CHR ''?'',
          CHR ''('', CHR '')'', CHR ''['', CHR '']'', CHR ''{'', CHR ''}'', CHR ''|''}"

definition regex_plain :: "string \<Rightarrow> bool" where
  "regex_plain p \<longleftrightarrow> \<not> list_ex regex_syntax_char p"

text \<open>The line terminators, which \<^verbatim>\<open>.\<close> in a pattern does not match (those below 256).\<close>

definition line_terminator :: "char \<Rightarrow> bool" where
  "line_terminator c \<longleftrightarrow> c = CHR 0x0A \<or> c = CHR 0x0D"

text \<open>
  \<^verbatim>\<open>s.replace(new RegExp(`(${p}).?`, 'g'), '')\<close> for a pattern text \<open>p\<close> free of syntax
  characters. The search runs left to right. Where \<open>p\<close> starts at the current position the
  match is \<open>p\<close> and, greedily, one more character unless that is a line terminator or the
  end of the string; the match is deleted and the search goes on after it. An empty match
  (empty \<open>p\<close> before a line terminator) keeps the character and moves one position on.
  Elsewhere the character is kept.
\<close>

function regex_strip :: "string \<Rightarrow> string \<Rightarrow> string" where
  "regex_strip p [] = []"
| "regex_strip p (c # cs) =
     (if prefix p (c # cs) then
        (case drop (length p) (c # cs) of
           [] \<Rightarrow> []
         | d # ds \<Rightarrow>
             if line_terminator d then
               (if p = [] then d # regex_strip p ds else regex_strip p (d # ds))
             else regex_strip p ds)
      else c # regex_strip p cs)"
  by pat_completeness auto
termination
proof (relation "measure (\<lambda>(p, s). length s)")
  show "wf (measure (\<lambda>(p, s). length s))" by simp
next
  fix p :: string and c :: char and cs d ds
  assume "drop (length p) (c # cs) = d # ds" and "p = []"
  then show "((p, ds), (p, c # cs)) \<in> measure (\<lambda>(p, s). length s)" by simp
next
  fix p :: string and c :: char and cs d ds
  assume a: "drop (length p) (c # cs) = d # ds" and ne: "p \<noteq> []"
  from ne have "length (drop (length p) (c # cs)) < length (c # cs)" by (cases p) simp_all
  with a show "((p, d # ds), (p, c # cs)) \<in> measure (\<lambda>(p, s). length s)" by simp
next
  fix p :: string and c :: char and cs d ds
  assume a: "drop (length p) (c # cs) = d # ds"
  have "length (drop (length p) (c # cs)) \<le> length (c # cs)" by simp
  with a show "((p, ds), (p, c # cs)) \<in> measure (\<lambda>(p, s). length s)" by simp
next
  fix p :: string and c :: char and cs
  show "((p, cs), (p, c # cs)) \<in> measure (\<lambda>(p, s). length s)" by simp
qed

declare regex_strip.simps [simp del]

subsection \<open>\<^verbatim>\<open>Number(value)\<close>: when the result is \<^verbatim>\<open>NaN\<close>\<close>

text \<open>The values \<^verbatim>\<open>_isId\<close> can be handed: \<^verbatim>\<open>null\<close> or a string.\<close>

datatype js_value = JNull | JString string

definition str_whitespace :: "char \<Rightarrow> bool" where
  "str_whitespace c \<longleftrightarrow>
     c \<in> {CHR 0x09, CHR 0x0A, CHR 0x0B, CHR 0x0C, CHR 0x0D, CHR 0x20, CHR 0xA0}"

definition trim_whitespace :: "string \<Rightarrow> string" where
  "trim_whitespace s = rev (dropWhile str_whitespace (rev (dropWhile str_whitespace s)))"

definition decimal_digit :: "char \<Rightarrow> bool" where
  "decimal_digit c \<longleftrightarrow> c \<in> set ''0123456789''"

definition decimal_digits :: "string \<Rightarrow> bool" where
  "decimal_digits s \<longleftrightarrow> s \<noteq> [] \<and> list_all decimal_digit s"

definition signed_integer :: "string \<Rightarrow> bool" where
  "signed_integer s \<longleftrightarrow>
     (case s of
        [] \<Rightarrow> False
      | c # r \<Rightarrow> if c = CHR ''+'' \<or> c = CHR ''-'' then decimal_digits r else decimal_digits s)"

definition exponent_part :: "string \<Rightarrow> bool" where
  "exponent_part s \<longleftrightarrow>
     (case s of [] \<Rightarrow> False | c # r \<Rightarrow> (c = CHR ''e'' \<or> c = CHR ''E'') \<and> signed_integer r)"

text \<open>
  \<open>StrUnsignedDecimalLiteral\<close>: \<^verbatim>\<open>Infinity\<close>, digits with an optional fraction and
  exponent, or a fraction starting with the dot.
\<close>

definition str_unsigned_decimal_literal :: "string \<Rightarrow> bool" where
  "str_unsigned_decimal_literal s \<longleftrightarrow>
     s = ''Infinity'' \<or>
     (let ip = takeWhile decimal_digit s; r = dropWhile decimal_digit s in
      case r of
        [] \<Rightarrow> ip \<noteq> []
      | c # r' \<Rightarrow>
          if c = CHR ''.'' then
            (let fp = takeWhile decimal_digit r'; r'' = dropWhile decimal_digit r' in
             (ip \<noteq> [] \<or> fp \<noteq> []) \<and> (r'' = [] \<or> exponent_part r''))
          else ip \<noteq> [] \<and> exponent_part r)"

definition str_decimal_literal :: "string \<Rightarrow> bool" where
  "str_decimal_literal s \<longleftrightarrow>
     (case s of
        [] \<Rightarrow> False
      | c # r \<Rightarrow>
          if c = CHR ''+'' \<or> c = CHR ''-'' then str_unsigned_decimal_literal r
          else str_unsigned_decimal_literal s)"

text \<open>\<open>NonDecimalIntegerLiteral\<close>: \<^verbatim>\<open>0b\<close>, \<^verbatim>\<open>0o\<close>, \<^verbatim>\<open>0x\<close> and at least one digit.\<close>

definition non_decimal_integer_literal :: "string \<Rightarrow> bool" where
  "non_decimal_integer_literal s \<longleftrightarrow>
     (case s of
        z # k # ds \<Rightarrow>
          z = CHR ''0'' \<and> ds \<noteq> [] \<and>
          (if k = CHR ''b'' \<or> k = CHR ''B'' then list_all (\<lambda>c. c \<in> set ''01'') ds
           else if k = CHR ''o'' \<or> k = CHR ''O'' then list_all (\<lambda>c. c \<in> set ''01234567'') ds
           else if k = CHR ''x'' \<or> k = CHR ''X''
             then list_all (\<lambda>c. c \<in> set ''0123456789abcdefABCDEF'') ds
           else False)
      | _ \<Rightarrow> False)"

text \<open>
  \<open>StringToNumber\<close>: white space is trimmed at both ends; the empty rest is \<open>0\<close>; a rest
  that is no \<open>StrNumericLiteral\<close> is \<^verbatim>\<open>NaN\<close>.
\<close>

definition string_to_number_is_nan :: "string \<Rightarrow> bool" where
  "string_to_number_is_nan s =
     (let t = trim_whitespace s in
      \<not> (t = [] \<or> str_decimal_literal t \<or> non_decimal_integer_literal t))"

text \<open>\<^verbatim>\<open>Number.isNaN(Number(v))\<close>; \<^verbatim>\<open>Number(null)\<close> is \<open>0\<close>.\<close>

fun to_number_is_nan :: "js_value \<Rightarrow> bool" where
  "to_number_is_nan JNull = False"
| "to_number_is_nan (JString s) = string_to_number_is_nan s"

section \<open>Data model\<close>

text \<open>
  The only exceptions of the resolver are \<^verbatim>\<open>new Error(message)\<close> and the \<^verbatim>\<open>TypeError\<close> of
  reading a property of \<^verbatim>\<open>null\<close> or \<^verbatim>\<open>undefined\<close>. \<open>RegExpOutsideModel\<close> is no
  exception of the source: it marks a call of \<^verbatim>\<open>_trimPath\<close> whose argument contains a
  regular-expression syntax character. There the source runs the argument as a pattern: it
  may throw a \<^verbatim>\<open>SyntaxError\<close> (\<^verbatim>\<open>+5\<close>) or match other texts than the argument (\<^verbatim>\<open>a+b\<close>
  does not match \<^verbatim>\<open>a+b\<close>), which \<open>regex_strip\<close> does not describe. Every statement below
  about a result of \<^verbatim>\<open>_trimPath\<close> is therefore for arguments free of such characters, and
  says so.
\<close>

datatype error = Error string | TypeError | RegExpOutsideModel

text \<open>An action object \<^verbatim>\<open>{ name, needFetch }\<close>.\<close>

record action_descriptor =
  action_name :: string
  needFetch :: bool

text \<open>\<^verbatim>\<open>DEFAULT_ACTIONS\<close>, the built-in actions.\<close>

definition DEFAULT_ACTIONS_create :: action_descriptor where
  "DEFAULT_ACTIONS_create = \<lparr>action_name = ''create'', needFetch = False\<rparr>"

definition DEFAULT_ACTIONS_update :: action_descriptor where
  "DEFAULT_ACTIONS_update = \<lparr>action_name = ''update'', needFetch = True\<rparr>"

text \<open>
  A schema node, with the properties the resolver reads: its \<^verbatim>\<open>name\<close>, its \<^verbatim>\<open>actions\<close>
  (an object from action names to action objects, or undefined) and its
  \<^verbatim>\<open>relationships\<close> (an array of schema nodes, or undefined). The resolver never reads
  \<^verbatim>\<open>fields\<close> and \<^verbatim>\<open>model\<close> of a schema.
\<close>

datatype schema =
  Schema (schema_name: string)
         (actions: "(string \<times> action_descriptor) list option")
         (relationships: "schema list option")

text \<open>The parent entity \<^verbatim>\<open>{ schema, name, id }\<close> pushed when a relationship is entered.\<close>

datatype parent_link =
  ParentLink (pl_schema: "schema option") (pl_name: string) (pl_id: string)

text \<open>
  The component, as far as the resolver reads it: \<^verbatim>\<open>_root\<close>, \<^verbatim>\<open>hasModel\<close> and
  \<^verbatim>\<open>model.name\<close>. Each of them may be undefined, as in the component \<^verbatim>\<open>{}\<close> the
  constructor starts with.
\<close>

record component_model =
  model_name :: "string option"

record mantra_component =
  c_root :: "string option"
  hasModel :: "bool option"
  model :: "component_model option"

text \<open>
  What \<^verbatim>\<open>BASE_CLASSES[baseClass]\<close> can be: one of the two base classes, or, for a key that
  \<^verbatim>\<open>BASE_CLASSES\<close> inherits from \<^verbatim>\<open>Object.prototype\<close>, the inherited member, which is no base
  class and has no \<^verbatim>\<open>getComponent\<close>.
\<close>

datatype base_class = MantraComponent | MantraForm | InheritedMember string

text \<open>
  The fields of a \<^verbatim>\<open>MantraData\<close> object. \<open>priv_path\<close> is \<^verbatim>\<open>_path\<close> (the part of the input
  not yet consumed) and \<open>priv_baseClass\<close> is \<^verbatim>\<open>_baseClass\<close>; \<open>id_val\<close>, \<open>context_val\<close> and
  \<open>alias_val\<close> are \<^verbatim>\<open>id\<close>, \<^verbatim>\<open>context\<close> and \<^verbatim>\<open>alias\<close>. \<open>schema = None\<close> is \<^verbatim>\<open>null\<close> or \<^verbatim>\<open>undefined\<close>;
  \<open>action = None\<close> is the initial \<^verbatim>\<open>''\<close> or \<^verbatim>\<open>undefined\<close>.
\<close>

record mantra_data =
  path :: string
  component :: mantra_component
  parents :: "parent_link list"
  name :: string
  schema :: "schema option"
  id_val :: string
  action :: "action_descriptor option"
  context_val :: string
  endpoint :: string
  priv_path :: string
  alias_val :: string
  priv_baseClass :: "base_class option"

section \<open>The resolver\<close>

text \<open>The names of the properties that an object literal inherits from \<^verbatim>\<open>Object.prototype\<close>.\<close>

definition object_prototype_members :: "string list" where
  "object_prototype_members =
     [''constructor'', ''hasOwnProperty'', ''isPrototypeOf'', ''propertyIsEnumerable'',
      ''toLocaleString'', ''toString'', ''valueOf'', ''__proto__'',
      ''__defineGetter__'', ''__defineSetter__'', ''__lookupGetter__'', ''__lookupSetter__'']"

definition priv_getBaseClass :: "string \<Rightarrow> base_class option" where
  "priv_getBaseClass baseClass =
     (if baseClass = ''MantraComponent'' then Some MantraComponent
      else if baseClass = ''MantraForm'' then Some MantraForm
      else if baseClass \<in> set object_prototype_members then Some (InheritedMember baseClass)
      else None)"

text \<open>The constructor.\<close>

definition MantraData :: "string \<Rightarrow> string \<Rightarrow> mantra_data" where
  "MantraData p baseClass =
     \<lparr>path = [], component = \<lparr>c_root = None, hasModel = None, model = None\<rparr>,
      parents = [], name = [], schema = None, id_val = [], action = None,
      context_val = [], endpoint = [], priv_path = p, alias_val = [],
      priv_baseClass = priv_getBaseClass baseClass\<rparr>"

text \<open>
  \<^verbatim>\<open>path.split('.')[0]\<close>. The result of \<open>str_split\<close> is never empty (lemma
  \<open>str_split_not_Nil\<close> below), so \<open>hd\<close> is its element \<open>0\<close>.
\<close>

definition getFirstPath :: "string \<Rightarrow> string" where
  "getFirstPath p = hd (str_split CHR ''.'' p)"

definition priv_setName :: "mantra_data \<Rightarrow> string \<Rightarrow> mantra_data" where
  "priv_setName st n = st\<lparr>name := n\<rparr>"

text \<open>
  The schema registry \<^verbatim>\<open>MantraPlugin.getSchemasModule()\<close> is a parameter: a map from
  the names of its own properties to their schemas.
\<close>

definition priv_isSchema :: "(string \<rightharpoonup> schema) \<Rightarrow> string \<Rightarrow> bool" where
  "priv_isSchema schemas n \<longleftrightarrow> schemas n \<noteq> None"

definition priv_setBaseSchema :: "(string \<rightharpoonup> schema) \<Rightarrow> mantra_data \<Rightarrow> string \<Rightarrow> mantra_data" where
  "priv_setBaseSchema schemas st n = st\<lparr>schema := schemas n\<rparr>"

definition priv_updatePath :: "mantra_data \<Rightarrow> string \<Rightarrow> mantra_data" where
  "priv_updatePath st p =
     (let separator = (if path st = [] then [] else ''.'')
      in st\<lparr>path := path st @ separator @ p\<rparr>)"

definition priv_trimPath :: "mantra_data \<Rightarrow> string \<Rightarrow> error + mantra_data" where
  "priv_trimPath st p =
     (if regex_plain p then Inr (st\<lparr>priv_path := regex_strip p (priv_path st)\<rparr>)
      else Inl RegExpOutsideModel)"

definition updatePath :: "mantra_data \<Rightarrow> string \<Rightarrow> error + mantra_data" where
  "updatePath st p = priv_trimPath (priv_updatePath st p) p"

definition setBase :: "(string \<rightharpoonup> schema) \<Rightarrow> mantra_data \<Rightarrow> error + mantra_data" where
  "setBase schemas st =
     (let n = getFirstPath (priv_path st) in
      if \<not> priv_isSchema schemas n then Inl (Error (''The '' @ n @ '' schema was not found''))
      else updatePath (priv_setBaseSchema schemas (priv_setName st n) n) n)"

subsection \<open>Chain resolution\<close>

definition priv_isRelationship :: "mantra_data \<Rightarrow> string \<Rightarrow> error + bool" where
  "priv_isRelationship st n =
     (case schema st of
        None \<Rightarrow> Inl TypeError
      | Some s \<Rightarrow>
          (case relationships s of
             None \<Rightarrow> Inr False
           | Some rels \<Rightarrow> Inr (list_ex (\<lambda>rel. schema_name rel = n) rels)))"

definition priv_addParent :: "mantra_data \<Rightarrow> parent_link \<Rightarrow> mantra_data" where
  "priv_addParent st entity = st\<lparr>parents := parents st @ [entity]\<rparr>"

definition priv_setRelationshipSchema :: "mantra_data \<Rightarrow> string \<Rightarrow> error + mantra_data" where
  "priv_setRelationshipSchema st n =
     (case schema st of
        None \<Rightarrow> Inl TypeError
      | Some s \<Rightarrow>
          (case relationships s of
             None \<Rightarrow> Inl TypeError
           | Some rels \<Rightarrow> Inr (st\<lparr>schema := find (\<lambda>rel. schema_name rel = n) rels\<rparr>)))"

definition priv_resetId :: "mantra_data \<Rightarrow> mantra_data" where
  "priv_resetId st = st\<lparr>id_val := []\<rparr>"

definition priv_setRelationship :: "mantra_data \<Rightarrow> string \<Rightarrow> error + mantra_data" where
  "priv_setRelationship st n =
     (let parentEntity = ParentLink (schema st) (name st) (id_val st) in
      case priv_setRelationshipSchema (priv_setName (priv_addParent st parentEntity) n) n of
        Inl e \<Rightarrow> Inl e
      | Inr st' \<Rightarrow> updatePath (priv_resetId st') n)"

definition priv_isId :: "js_value \<Rightarrow> bool" where
  "priv_isId v =
     (let isNull = (v = JNull); isNaN = to_number_is_nan v
      in \<not> isNaN \<and> \<not> isNull)"

definition priv_setId :: "mantra_data \<Rightarrow> string \<Rightarrow> error + mantra_data" where
  "priv_setId st i = priv_trimPath (st\<lparr>id_val := i\<rparr>) i"

text \<open>
  The \<^verbatim>\<open>for\<close> loop of \<^verbatim>\<open>setRecord\<close> over the names of \<^verbatim>\<open>arrPath\<close>; \<^verbatim>\<open>break\<close> returns the
  state as it is.
\<close>

fun setRecord_loop :: "mantra_data \<Rightarrow> string list \<Rightarrow> error + mantra_data" where
  "setRecord_loop st [] = Inr st"
| "setRecord_loop st (n # ns) =
     (case priv_isRelationship st n of
        Inl e \<Rightarrow> Inl e
      | Inr True \<Rightarrow>
          (case priv_setRelationship st n of
             Inl e \<Rightarrow> Inl e
           | Inr st' \<Rightarrow> setRecord_loop st' ns)
      | Inr False \<Rightarrow>
          if priv_isId (JString n) then
            (case priv_setId st n of
               Inl e \<Rightarrow> Inl e
             | Inr st' \<Rightarrow> setRecord_loop st' ns)
          else Inr st)"

definition setRecord :: "mantra_data \<Rightarrow> error + mantra_data" where
  "setRecord st = setRecord_loop st (str_split CHR ''.'' (priv_path st))"

subsection \<open>Action resolution\<close>

text \<open>
  \<^verbatim>\<open>const [action = ''] = this._path.split('.')\<close>: the first segment of \<^verbatim>\<open>_path\<close>, with
  the default \<^verbatim>\<open>''\<close> of the pattern for a missing first element.
\<close>

definition priv_isCustomAction :: "mantra_data \<Rightarrow> error + bool" where
  "priv_isCustomAction st =
     (let a = (case str_split CHR ''.'' (priv_path st) of [] \<Rightarrow> [] | x # _ \<Rightarrow> x) in
      case schema st of
        None \<Rightarrow> Inl TypeError
      | Some s \<Rightarrow>
          (case actions s of
             None \<Rightarrow> Inr False
           | Some acts \<Rightarrow> Inr (map_of acts a \<noteq> None)))"

definition priv_getCustomAction :: "mantra_data \<Rightarrow> error + action_descriptor option" where
  "priv_getCustomAction st =
     (let a = (case str_split CHR ''.'' (priv_path st) of [] \<Rightarrow> [] | x # _ \<Rightarrow> x) in
      case schema st of
        None \<Rightarrow> Inl TypeError
      | Some s \<Rightarrow>
          (case actions s of
             None \<Rightarrow> Inl TypeError
           | Some acts \<Rightarrow> Inr (map_of acts a)))"

definition priv_isUpdateAction :: "mantra_data \<Rightarrow> bool" where
  "priv_isUpdateAction st \<longleftrightarrow> id_val st \<noteq> []"

definition priv_getDefaultAction :: "mantra_data \<Rightarrow> action_descriptor" where
  "priv_getDefaultAction st =
     (if priv_isUpdateAction st then DEFAULT_ACTIONS_update else DEFAULT_ACTIONS_create)"

definition priv_getAction :: "mantra_data \<Rightarrow> error + action_descriptor option" where
  "priv_getAction st =
     (case priv_isCustomAction st of
        Inl e \<Rightarrow> Inl e
      | Inr True \<Rightarrow> priv_getCustomAction st
      | Inr False \<Rightarrow> Inr (Some (priv_getDefaultAction st)))"

definition setAction :: "mantra_data \<Rightarrow> error + mantra_data" where
  "setAction st =
     (case priv_getAction st of Inl e \<Rightarrow> Inl e | Inr a \<Rightarrow> Inr (st\<lparr>action := a\<rparr>))"

subsection \<open>Component, endpoint and alias\<close>

text \<open>
  \<^verbatim>\<open>getComponent\<close> of the two base classes is a parameter. With no base class the call is
  on \<^verbatim>\<open>undefined\<close>, and a member inherited from \<^verbatim>\<open>Object.prototype\<close> has no
  \<^verbatim>\<open>getComponent\<close> to call: both are a \<^verbatim>\<open>TypeError\<close>.
\<close>

definition setComponent ::
  "(base_class \<Rightarrow> mantra_data \<Rightarrow> mantra_component) \<Rightarrow> mantra_data \<Rightarrow> error + mantra_data" where
  "setComponent getComponent st =
     (case priv_baseClass st of
        None \<Rightarrow> Inl TypeError
      | Some (InheritedMember m) \<Rightarrow> Inl TypeError
      | Some b \<Rightarrow> Inr (st\<lparr>component := getComponent b st\<rparr>))"

definition getEndpoint :: "mantra_data \<Rightarrow> string" where
  "getEndpoint st = replace_all_char CHR ''.'' CHR ''/'' (path st)"

text \<open>
  \<^verbatim>\<open>this.component.model.name\<close> throws when \<^verbatim>\<open>model\<close> is undefined; a name is truthy
  when it is a non-empty string.
\<close>

definition getAlias :: "mantra_data \<Rightarrow> error + string" where
  "getAlias st =
     (case model (component st) of
        None \<Rightarrow> Inl TypeError
      | Some m \<Rightarrow>
          (case model_name m of
             None \<Rightarrow> Inr (replace_all_char CHR ''/'' CHR ''-'' (endpoint st))
           | Some n \<Rightarrow>
               if n \<noteq> [] then Inr n
               else Inr (replace_all_char CHR ''/'' CHR ''-'' (endpoint st))))"

definition setAlias :: "mantra_data \<Rightarrow> error + mantra_data" where
  "setAlias st = (case getAlias st of Inl e \<Rightarrow> Inl e | Inr a \<Rightarrow> Inr (st\<lparr>alias_val := a\<rparr>))"

definition setEndpoint :: "mantra_data \<Rightarrow> error + mantra_data" where
  "setEndpoint st = setAlias (st\<lparr>endpoint := getEndpoint st\<rparr>)"

subsection \<open>Validation\<close>

definition isValid :: "mantra_data \<Rightarrow> error + bool" where
  "isValid st =
     (let isEmpty = (priv_path st = []) in
      if \<not> isEmpty then Inl (Error ''Configuration path was not completely resolved'')
      else Inr True)"

section \<open>Chain resolution as the specification words it\<close>

text \<open>
  The state machine of the specification, on the list of segments: the current schema,
  name and id and the parent links. While \<open>SCANNING\<close>, a segment that names a relationship
  of the current schema pushes a parent link, moves to that relationship and resets the id;
  otherwise a segment that is a valid id becomes the current id; otherwise the machine is
  \<open>STOPPED\<close> and the segment stays with the rest. \<open>chain_scan\<close> returns the final context
  and the segments not consumed.
\<close>

record chain_context =
  currentSchema :: schema
  currentName :: string
  currentId :: string
  parentLinks :: "parent_link list"

fun chain_scan :: "chain_context \<Rightarrow> string list \<Rightarrow> chain_context \<times> string list" where
  "chain_scan c [] = (c, [])"
| "chain_scan c (seg # segs) =
     (case find (\<lambda>rel. schema_name rel = seg)
             (case relationships (currentSchema c) of None \<Rightarrow> [] | Some rels \<Rightarrow> rels) of
        Some rel \<Rightarrow>
          chain_scan
            \<lparr>currentSchema = rel, currentName = seg, currentId = [],
             parentLinks = parentLinks c
               @ [ParentLink (Some (currentSchema c)) (currentName c) (currentId c)]\<rparr>
            segs
      | None \<Rightarrow>
          if priv_isId (JString seg) then chain_scan (c\<lparr>currentId := seg\<rparr>) segs
          else (c, seg # segs))"

text \<open>The part of a \<^verbatim>\<open>MantraData\<close> object that the state machine speaks about.\<close>

definition context_of :: "mantra_data \<Rightarrow> schema \<Rightarrow> chain_context" where
  "context_of st sch =
     \<lparr>currentSchema = sch, currentName = name st, currentId = id_val st,
      parentLinks = parents st\<rparr>"

section \<open>Paths whose segments do not occur in one another\<close>

text \<open>
  A list of segments is well separated when every segment is non-empty, free of
  regular-expression syntax, and its text occurs nowhere in the dot-joined segments after
  it.
\<close>

fun well_separated :: "string list \<Rightarrow> bool" where
  "well_separated [] = True"
| "well_separated (s # ss) =
     (s \<noteq> [] \<and> regex_plain s \<and> \<not> sublist s (join_dot ss) \<and> well_separated ss)"

section \<open>An example registry and components\<close>

text \<open>
  The registry of the specification's scenarios: \<^verbatim>\<open>users\<close> with the relationship \<^verbatim>\<open>posts\<close>,
  and \<^verbatim>\<open>posts\<close> declaring the action \<^verbatim>\<open>create\<close>.
\<close>


definition ex_create :: action_descriptor where
  "ex_create = \<lparr>action_name = ''create'', needFetch = True\<rparr>"

definition ex_posts :: schema where
  "ex_posts = Schema ''posts'' (Some [(''create'', ex_create)]) None"

definition ex_users :: schema where
  "ex_users = Schema ''users'' None (Some [ex_posts])"

definition ex_schemas :: "string \<rightharpoonup> schema" where
  "ex_schemas = [''users'' \<mapsto> ex_users]"


definition ex_widget_component :: mantra_component where
  "ex_widget_component =
     \<lparr>c_root = Some ''forms'', hasModel = Some True, model = Some \<lparr>model_name = Some ''Widget''\<rparr>\<rparr>"

definition ex_bare_component :: mantra_component where
  "ex_bare_component = \<lparr>c_root = Some ''forms'', hasModel = Some False, model = None\<rparr>"

definition ex_resolved :: mantra_data where
  "ex_resolved = (MantraData [] ''MantraForm'')\<lparr>path := ''users.posts''\<rparr>"

text \<open>The context after base resolution of a path that starts with \<^verbatim>\<open>users\<close>.\<close>

definition ex_after_base :: "string \<Rightarrow> string \<Rightarrow> mantra_data" where
  "ex_after_base p rest =
     (MantraData p ''MantraForm'')
       \<lparr>name := ''users'', schema := Some ex_users, path := ''users'', priv_path := rest\<rparr>"

section \<open>Properties of the resolver\<close>

subsection \<open>Splitting\<close>

lemma str_split_Nil: "str_split sep [] = [[]]"
  by (subst str_split.simps) simp

lemma str_split_Cons_sep: "str_split sep (sep # cs) = [] # str_split sep cs"
  by (subst str_split.simps) simp

lemma str_split_last:
  "dropWhile (\<lambda>c. c \<noteq> sep) s = [] \<Longrightarrow> str_split sep s = [takeWhile (\<lambda>c. c \<noteq> sep) s]"
  by (subst str_split.simps) (simp only: list.case)

lemma str_split_more:
  "dropWhile (\<lambda>c. c \<noteq> sep) s = x # rest \<Longrightarrow>
   str_split sep s = takeWhile (\<lambda>c. c \<noteq> sep) s # str_split sep rest"
  by (subst str_split.simps) (simp only: list.case)

lemma str_split_not_Nil: "str_split sep s \<noteq> []"
proof (cases "dropWhile (\<lambda>c. c \<noteq> sep) s")
  case Nil
  from str_split_last [OF this] show ?thesis by simp
next
  case (Cons x rest)
  from str_split_more [OF this] show ?thesis by simp
qed

lemma first_segment_default:
  "(case str_split CHR ''.'' p of [] \<Rightarrow> [] | x # _ \<Rightarrow> x) = getFirstPath p"
  using str_split_not_Nil [of "CHR ''.''" p]
  by (cases "str_split CHR ''.'' p") (simp_all add: getFirstPath_def)

lemma str_split_Cons_other:
  assumes "c \<noteq> sep"
  shows "str_split sep (c # cs) =
           (case str_split sep cs of [] \<Rightarrow> [[c]] | x # xs \<Rightarrow> (c # x) # xs)"
proof (cases "dropWhile (\<lambda>c. c \<noteq> sep) cs")
  case Nil
  with assms have "dropWhile (\<lambda>c. c \<noteq> sep) (c # cs) = []" by simp
  from str_split_last [OF this] str_split_last [OF Nil] assms show ?thesis by simp
next
  case (Cons x rest)
  with assms have "dropWhile (\<lambda>c. c \<noteq> sep) (c # cs) = x # rest" by simp
  from str_split_more [OF this] str_split_more [OF Cons] assms show ?thesis by simp
qed

lemmas str_split_eval = str_split_Nil str_split_Cons_sep str_split_Cons_other

lemma getFirstPath_takeWhile: "getFirstPath p = takeWhile (\<lambda>c. c \<noteq> CHR ''.'') p"
proof (cases "dropWhile (\<lambda>c. c \<noteq> CHR ''.'') p")
  case Nil
  from str_split_last [OF this] show ?thesis by (simp add: getFirstPath_def)
next
  case (Cons x rest)
  from str_split_more [OF this] show ?thesis by (simp add: getFirstPath_def)
qed

subsection \<open>The id predicate\<close>

lemma decimal_digit_not_whitespace: "decimal_digit c \<Longrightarrow> \<not> str_whitespace c"
  by (auto simp: decimal_digit_def str_whitespace_def)

lemma decimal_digit_not_sign: "decimal_digit c \<Longrightarrow> c \<noteq> CHR ''+'' \<and> c \<noteq> CHR ''-''"
  by (auto simp: decimal_digit_def)

lemma trim_whitespace_digits:
  assumes "s \<noteq> []" and "list_all decimal_digit s"
  shows "trim_whitespace s = s"
proof -
  from assms have h: "\<not> str_whitespace (hd s)" and l: "\<not> str_whitespace (last s)"
    by (auto simp: list_all_iff decimal_digit_not_whitespace)
  from assms h have "dropWhile str_whitespace s = s"
    by (simp add: dropWhile_eq_self_iff)
  moreover from assms l have "dropWhile str_whitespace (rev s) = rev s"
    by (simp add: dropWhile_eq_self_iff hd_rev)
  ultimately show ?thesis by (simp add: trim_whitespace_def)
qed

lemma digits_unsigned_decimal:
  assumes "s \<noteq> []" and "list_all decimal_digit s"
  shows "str_unsigned_decimal_literal s"
proof -
  from assms have tw: "takeWhile decimal_digit s = s" and dw: "dropWhile decimal_digit s = []"
    by (auto simp: list_all_iff)
  show ?thesis unfolding str_unsigned_decimal_literal_def Let_def tw dw
    using assms by simp
qed

lemma digits_not_nan:
  assumes "s \<noteq> []" and "list_all decimal_digit s"
  shows "\<not> string_to_number_is_nan s"
proof -
  from assms obtain c r where s: "s = c # r" and c: "decimal_digit c" by (cases s) auto
  have "str_decimal_literal s"
    using digits_unsigned_decimal [OF assms] decimal_digit_not_sign [OF c]
    by (simp add: str_decimal_literal_def s)
  then show ?thesis
    by (simp add: string_to_number_is_nan_def trim_whitespace_digits [OF assms])
qed

lemma nan_null: "string_to_number_is_nan ''null''"
  by (simp add: string_to_number_is_nan_def trim_whitespace_def str_whitespace_def
      str_decimal_literal_def str_unsigned_decimal_literal_def decimal_digit_def
      non_decimal_integer_literal_def)

lemma nan_posts: "string_to_number_is_nan ''posts''"
  by (simp add: string_to_number_is_nan_def trim_whitespace_def str_whitespace_def
      str_decimal_literal_def str_unsigned_decimal_literal_def decimal_digit_def
      non_decimal_integer_literal_def)

lemma not_nan_empty: "\<not> string_to_number_is_nan []"
  by (simp add: string_to_number_is_nan_def trim_whitespace_def)

text \<open>
  Claim C4. \<^verbatim>\<open>_isId\<close> holds for a value exactly when the value is not \<^verbatim>\<open>null\<close> and its
  numeric coercion is not \<^verbatim>\<open>NaN\<close>. It holds for every non-empty string of decimal digits,
  for \<^verbatim>\<open>"0"\<close> and for the empty string; it fails for \<^verbatim>\<open>"null"\<close> and for \<^verbatim>\<open>"posts"\<close>.
\<close>

theorem priv_isId_spec:
  "(priv_isId v \<longleftrightarrow> v \<noteq> JNull \<and> \<not> to_number_is_nan v)
   \<and> (\<forall>s. s \<noteq> [] \<and> list_all decimal_digit s \<longrightarrow> priv_isId (JString s))
   \<and> priv_isId (JString ''0'')
   \<and> priv_isId (JString [])
   \<and> \<not> priv_isId (JString ''null'')
   \<and> \<not> priv_isId (JString ''posts'')"
proof -
  have a: "priv_isId v \<longleftrightarrow> v \<noteq> JNull \<and> \<not> to_number_is_nan v" for v
    by (auto simp: priv_isId_def Let_def)
  have b: "priv_isId (JString s)" if "s \<noteq> []" "list_all decimal_digit s" for s
    using digits_not_nan [OF that] by (simp add: a)
  have c: "priv_isId (JString ''0'')"
    by (rule b) (simp_all add: decimal_digit_def)
  show ?thesis
    using a b c nan_null nan_posts not_nan_empty by simp
qed

theorem priv_isId_spec_witness:
  "''42'' \<noteq> [] \<and> list_all decimal_digit ''42'' \<and> priv_isId (JString ''42'')
   \<and> \<not> priv_isId JNull \<and> \<not> to_number_is_nan JNull"
  using priv_isId_spec [of JNull] by (simp add: decimal_digit_def)

subsection \<open>Validation\<close>

text \<open>
  Claim C7. \<^verbatim>\<open>isValid\<close> throws the error with the message
  \<^verbatim>\<open>Configuration path was not completely resolved\<close> exactly when \<^verbatim>\<open>_path\<close> is not empty,
  and returns \<^verbatim>\<open>true\<close> exactly when it is empty.
\<close>

theorem isValid_spec:
  "(isValid st = Inl (Error ''Configuration path was not completely resolved'')
      \<longleftrightarrow> priv_path st \<noteq> [])
   \<and> (isValid st = Inr True \<longleftrightarrow> priv_path st = [])"
  by (simp add: isValid_def)

subsection \<open>Trimming the remaining path\<close>

lemma regex_plain_eval:
  "regex_plain [] \<longleftrightarrow> True"
  "regex_plain (c # cs) \<longleftrightarrow> \<not> regex_syntax_char c \<and> regex_plain cs"
  by (simp_all add: regex_plain_def)

lemma regex_strip_head:
  "regex_strip n (n @ CHR ''.'' # r) = regex_strip n r"
  by (cases n) (simp_all add: regex_strip.simps line_terminator_def)

lemma regex_strip_self: "regex_strip n n = []"
  by (cases n) (simp_all add: regex_strip.simps)

lemma regex_strip_first_segment:
  "regex_strip (takeWhile (\<lambda>c. c \<noteq> CHR ''.'') p) p
     = regex_strip (takeWhile (\<lambda>c. c \<noteq> CHR ''.'') p) (drop (Suc (length (takeWhile (\<lambda>c. c \<noteq> CHR ''.'') p))) p)"
proof (cases "dropWhile (\<lambda>c. c \<noteq> CHR ''.'') p")
  case Nil
  then have tw: "takeWhile (\<lambda>c. c \<noteq> CHR ''.'') p = p"
    by (simp add: takeWhile_eq_all_conv)
  show ?thesis unfolding tw by (simp add: regex_strip_self regex_strip.simps)
next
  case (Cons x rest)
  then have x: "x = CHR ''.''"
    using hd_dropWhile [of "\<lambda>c. c \<noteq> CHR ''.''" p] by auto
  have p: "p = takeWhile (\<lambda>c. c \<noteq> CHR ''.'') p @ CHR ''.'' # rest"
    using takeWhile_dropWhile_id [of "\<lambda>c. c \<noteq> CHR ''.''" p] Cons x by simp
  have "drop (Suc (length (takeWhile (\<lambda>c. c \<noteq> CHR ''.'') p))) p = rest"
    by (subst (2) p) simp
  moreover have "regex_strip (takeWhile (\<lambda>c. c \<noteq> CHR ''.'') p) p
      = regex_strip (takeWhile (\<lambda>c. c \<noteq> CHR ''.'') p) rest"
    by (subst (2) p) (rule regex_strip_head)
  ultimately show ?thesis by simp
qed

lemma regex_strip_absent:
  assumes "p \<noteq> []" and "\<not> sublist p s"
  shows "regex_strip p s = s"
  using assms(2)
proof (induction s)
  case Nil
  show ?case by (simp add: regex_strip.simps)
next
  case (Cons c cs)
  from Cons.prems have "\<not> prefix p (c # cs)" and "\<not> sublist p cs"
    by (simp_all add: sublist_Cons_right)
  with Cons.IH show ?case by (simp add: regex_strip.simps)
qed

subsection \<open>Base resolution\<close>

text \<open>
  Claim C3, amended. \<^verbatim>\<open>setBase\<close> takes the first dot-separated segment of \<^verbatim>\<open>_path\<close>. It
  throws the error \<^verbatim>\<open>The <segment> schema was not found\<close> exactly when the registry has no
  schema under that name. When it has one and the segment is free of regular-expression
  syntax characters, it binds \<^verbatim>\<open>schema\<close> to the registry's schema and \<^verbatim>\<open>name\<close> to the
  segment, appends the segment to \<^verbatim>\<open>path\<close>, and removes from \<^verbatim>\<open>_path\<close> the segment with its
  separator and every later occurrence of the segment's text with one following character
  (\<open>regex_strip\<close> on what follows the separator). When the segment is not empty and its text
  does not occur in what follows the separator, just the segment and its separator are
  removed.
\<close>

theorem setBase_spec:
  assumes "n = getFirstPath (priv_path st)"
  shows "n = takeWhile (\<lambda>c. c \<noteq> CHR ''.'') (priv_path st)
       \<and> (setBase schemas st = Inl (Error (''The '' @ n @ '' schema was not found''))
            \<longleftrightarrow> schemas n = None)
       \<and> (\<forall>s. schemas n = Some s \<and> regex_plain n \<longrightarrow>
            setBase schemas st =
              Inr (st\<lparr>name := n, schema := Some s,
                     path := path st @ (if path st = [] then [] else ''.'') @ n,
                     priv_path := regex_strip n (drop (Suc (length n)) (priv_path st))\<rparr>))
       \<and> (n \<noteq> [] \<and> \<not> sublist n (drop (Suc (length n)) (priv_path st)) \<longrightarrow>
            regex_strip n (drop (Suc (length n)) (priv_path st))
              = drop (Suc (length n)) (priv_path st))"
proof -
  have n: "n = takeWhile (\<lambda>c. c \<noteq> CHR ''.'') (priv_path st)"
    using assms by (simp add: getFirstPath_takeWhile)
  have strip: "regex_strip n (priv_path st) = regex_strip n (drop (Suc (length n)) (priv_path st))"
    unfolding n by (rule regex_strip_first_segment)
  have err: "setBase schemas st = Inl (Error (''The '' @ n @ '' schema was not found''))
      \<longleftrightarrow> schemas n = None"
    using assms
    by (auto simp: setBase_def Let_def priv_isSchema_def updatePath_def priv_trimPath_def)
  have ok: "setBase schemas st =
              Inr (st\<lparr>name := n, schema := Some s,
                     path := path st @ (if path st = [] then [] else ''.'') @ n,
                     priv_path := regex_strip n (drop (Suc (length n)) (priv_path st))\<rparr>)"
    if "schemas n = Some s" "regex_plain n" for s
    using that assms strip
    by (simp add: setBase_def Let_def priv_isSchema_def updatePath_def priv_trimPath_def
        priv_updatePath_def priv_setBaseSchema_def priv_setName_def)
  have once: "regex_strip n (drop (Suc (length n)) (priv_path st))
                = drop (Suc (length n)) (priv_path st)"
    if "n \<noteq> []" "\<not> sublist n (drop (Suc (length n)) (priv_path st))"
    using that by (rule regex_strip_absent)
  from n err ok once show ?thesis by blast
qed

lemma ex_setBase:
  "setBase ex_schemas (MantraData (''users.'' @ rest) ''MantraForm'')
     = Inr (ex_after_base (''users.'' @ rest) (regex_strip ''users'' rest))"
  by (simp add: setBase_def getFirstPath_takeWhile MantraData_def ex_schemas_def
      priv_isSchema_def updatePath_def priv_updatePath_def priv_setBaseSchema_def
      priv_setName_def priv_trimPath_def regex_plain_eval regex_syntax_char_def
      regex_strip.simps line_terminator_def ex_after_base_def Let_def)

text \<open>
  Claim C3, as stated, fails on \<^verbatim>\<open>users.superusers.5\<close>: consuming the segment \<^verbatim>\<open>users\<close>
  would leave \<^verbatim>\<open>superusers.5\<close>, but \<^verbatim>\<open>setBase\<close> also removes \<^verbatim>\<open>users.\<close> from inside the
  second segment and leaves \<^verbatim>\<open>super5\<close>.
\<close>

theorem setBase_counterexample:
  "setBase ex_schemas (MantraData ''users.superusers.5'' ''MantraForm'')
     = Inr (ex_after_base ''users.superusers.5'' ''super5'')
   \<and> join_dot (tl (str_split CHR ''.'' ''users.superusers.5'')) = ''superusers.5''"
proof -
  have "regex_strip ''users'' ''superusers.5'' = ''super5''"
    by (simp add: regex_strip.simps line_terminator_def)
  with ex_setBase [of "''superusers.5''"]
  have "setBase ex_schemas (MantraData ''users.superusers.5'' ''MantraForm'')
     = Inr (ex_after_base ''users.superusers.5'' ''super5'')"
    by simp
  moreover have "join_dot (tl (str_split CHR ''.'' ''users.superusers.5'')) = ''superusers.5''"
    by (simp add: str_split_eval)
  ultimately show ?thesis by simp
qed

theorem setBase_spec_witness:
  "setBase ex_schemas (MantraData ''users.5.posts'' ''MantraForm'')
     = Inr ((MantraData ''users.5.posts'' ''MantraForm'')
              \<lparr>name := ''users'', schema := Some ex_users, path := ''users'',
               priv_path := ''5.posts''\<rparr>)
   \<and> setBase ex_schemas (MantraData ''user.5'' ''MantraForm'')
     = Inl (Error ''The user schema was not found'')
   \<and> ''users'' \<noteq> [] \<and> \<not> sublist ''users'' ''5.posts''"
  using setBase_spec [of "''users''" "MantraData ''users.5.posts'' ''MantraForm''" ex_schemas]
    setBase_spec [of "''user''" "MantraData ''user.5'' ''MantraForm''" ex_schemas]
  by (simp add: getFirstPath_takeWhile MantraData_def ex_schemas_def regex_plain_eval
      regex_syntax_char_def sublist_code prefix_code)

subsection \<open>Chain resolution\<close>

lemma chain_scan_suffix: "chain_scan c segs = (c', rest) \<Longrightarrow> \<exists>pre. segs = pre @ rest"
proof (induction segs arbitrary: c)
  case Nil
  then show ?case by simp
next
  case (Cons seg segs)
  show ?case
  proof (cases "find (\<lambda>rel. schema_name rel = seg)
             (case relationships (currentSchema c) of None \<Rightarrow> [] | Some rels \<Rightarrow> rels)")
    case None
    show ?thesis
    proof (cases "priv_isId (JString seg)")
      case True
      with None Cons.prems have "chain_scan (c\<lparr>currentId := seg\<rparr>) segs = (c', rest)" by simp
      from Cons.IH [OF this] obtain pre where "segs = pre @ rest" ..
      then have "seg # segs = (seg # pre) @ rest" by simp
      then show ?thesis ..
    next
      case False
      with None Cons.prems have "rest = seg # segs" by simp
      then have "seg # segs = [] @ rest" by simp
      then show ?thesis ..
    qed
  next
    case (Some rel)
    with Cons.prems have "chain_scan
            \<lparr>currentSchema = rel, currentName = seg, currentId = [],
             parentLinks = parentLinks c
               @ [ParentLink (Some (currentSchema c)) (currentName c) (currentId c)]\<rparr>
            segs = (c', rest)" by simp
    from Cons.IH [OF this] obtain pre where "segs = pre @ rest" ..
    then have "seg # segs = (seg # pre) @ rest" by simp
    then show ?thesis ..
  qed
qed

lemma find_list_ex: "list_ex P xs \<longleftrightarrow> find P xs \<noteq> None"
  by (induction xs) auto

lemma priv_isRelationship_find:
  assumes "schema st = Some sch"
  shows "priv_isRelationship st n =
           Inr (find (\<lambda>rel. schema_name rel = n)
                  (case relationships sch of None \<Rightarrow> [] | Some rels \<Rightarrow> rels) \<noteq> None)"
  using assms by (simp add: priv_isRelationship_def find_list_ex split: option.splits)

lemma priv_trimPath_plain:
  "regex_plain p \<Longrightarrow> priv_trimPath st p = Inr (st\<lparr>priv_path := regex_strip p (priv_path st)\<rparr>)"
  by (simp add: priv_trimPath_def)

lemma priv_setRelationship_found:
  assumes "schema st = Some sch"
    and "find (\<lambda>rel. schema_name rel = n)
           (case relationships sch of None \<Rightarrow> [] | Some rels \<Rightarrow> rels) = Some rel"
    and "regex_plain n"
  shows "priv_setRelationship st n =
           Inr (st\<lparr>parents := parents st @ [ParentLink (Some sch) (name st) (id_val st)],
                  name := n, schema := Some rel, id_val := [],
                  path := path st @ (if path st = [] then [] else ''.'') @ n,
                  priv_path := regex_strip n (priv_path st)\<rparr>)"
proof -
  from assms(2) obtain rels where rels: "relationships sch = Some rels"
    by (cases "relationships sch") simp_all
  with assms show ?thesis
    by (simp add: priv_setRelationship_def priv_setRelationshipSchema_def priv_setName_def
        priv_addParent_def priv_resetId_def updatePath_def priv_updatePath_def
        priv_trimPath_plain Let_def)
qed

lemma priv_setId_plain:
  "regex_plain n \<Longrightarrow>
   priv_setId st n = Inr (st\<lparr>id_val := n, priv_path := regex_strip n (priv_path st)\<rparr>)"
  by (simp add: priv_setId_def priv_trimPath_plain)

lemma setRecord_loop_relationship:
  assumes "schema st = Some sch"
    and "find (\<lambda>rel. schema_name rel = n)
           (case relationships sch of None \<Rightarrow> [] | Some rels \<Rightarrow> rels) = Some rel"
    and "regex_plain n"
  shows "setRecord_loop st (n # ns) =
           setRecord_loop
             (st\<lparr>parents := parents st @ [ParentLink (Some sch) (name st) (id_val st)],
                 name := n, schema := Some rel, id_val := [],
                 path := path st @ (if path st = [] then [] else ''.'') @ n,
                 priv_path := regex_strip n (priv_path st)\<rparr>) ns"
  using assms
  by (simp add: priv_isRelationship_find [OF assms(1)] priv_setRelationship_found [OF assms])

lemma setRecord_loop_id:
  assumes "schema st = Some sch"
    and "find (\<lambda>rel. schema_name rel = n)
           (case relationships sch of None \<Rightarrow> [] | Some rels \<Rightarrow> rels) = None"
    and "priv_isId (JString n)"
    and "regex_plain n"
  shows "setRecord_loop st (n # ns) =
           setRecord_loop (st\<lparr>id_val := n, priv_path := regex_strip n (priv_path st)\<rparr>) ns"
  using assms
  by (simp add: priv_isRelationship_find [OF assms(1)] priv_setId_plain)

lemma setRecord_loop_stop:
  assumes "schema st = Some sch"
    and "find (\<lambda>rel. schema_name rel = n)
           (case relationships sch of None \<Rightarrow> [] | Some rels \<Rightarrow> rels) = None"
    and "\<not> priv_isId (JString n)"
  shows "setRecord_loop st (n # ns) = Inr st"
  using assms
  by (simp add: priv_isRelationship_find [OF assms(1)])

lemma setRecord_loop_refines:
  assumes "schema st = Some sch"
    and "chain_scan (context_of st sch) segs = (c, rest)"
    and "segs = pre @ rest"
    and "list_all regex_plain pre"
  shows "\<exists>st'. setRecord_loop st segs = Inr st'
           \<and> schema st' = Some (currentSchema c)
           \<and> name st' = currentName c
           \<and> id_val st' = currentId c
           \<and> parents st' = parentLinks c
           \<and> priv_path st' = foldl (\<lambda>p seg. regex_strip seg p) (priv_path st) pre"
  using assms
proof (induction segs arbitrary: st sch pre)
  case Nil
  then show ?case by (auto simp: context_of_def)
next
  case (Cons n ns)
  let ?found = "find (\<lambda>rel. schema_name rel = n)
                  (case relationships sch of None \<Rightarrow> [] | Some rels \<Rightarrow> rels)"
  show ?case
  proof (cases ?found)
    case (Some rel)
    let ?st1 = "st\<lparr>parents := parents st @ [ParentLink (Some sch) (name st) (id_val st)],
                 name := n, schema := Some rel, id_val := [],
                 path := path st @ (if path st = [] then [] else ''.'') @ n,
                 priv_path := regex_strip n (priv_path st)\<rparr>"
    from Some Cons.prems(2) have scan: "chain_scan (context_of ?st1 rel) ns = (c, rest)"
      by (simp add: context_of_def)
    from chain_scan_suffix [OF scan] obtain pre' where ns: "ns = pre' @ rest" ..
    with Cons.prems(3) have pre: "pre = n # pre'" by simp
    with Cons.prems(4) have plain: "regex_plain n" "list_all regex_plain pre'" by simp_all
    have s1: "schema ?st1 = Some rel" by simp
    from Cons.IH [OF s1 scan ns plain(2)]
    obtain st' where "setRecord_loop ?st1 ns = Inr st'"
      and "schema st' = Some (currentSchema c)"
      and "name st' = currentName c" and "id_val st' = currentId c"
      and "parents st' = parentLinks c"
      and "priv_path st' = foldl (\<lambda>p seg. regex_strip seg p) (priv_path ?st1) pre'"
      by blast
    then show ?thesis
      using setRecord_loop_relationship [OF Cons.prems(1) Some plain(1), of ns] pre by simp
  next
    case None
    show ?thesis
    proof (cases "priv_isId (JString n)")
      case True
      let ?st1 = "st\<lparr>id_val := n, priv_path := regex_strip n (priv_path st)\<rparr>"
      from None True Cons.prems(2) have scan: "chain_scan (context_of ?st1 sch) ns = (c, rest)"
        by (simp add: context_of_def)
      from chain_scan_suffix [OF scan] obtain pre' where ns: "ns = pre' @ rest" ..
      with Cons.prems(3) have pre: "pre = n # pre'" by simp
      with Cons.prems(4) have plain: "regex_plain n" "list_all regex_plain pre'" by simp_all
      from Cons.prems(1) have s1: "schema ?st1 = Some sch" by simp
      from Cons.IH [OF s1 scan ns plain(2)]
      obtain st' where "setRecord_loop ?st1 ns = Inr st'"
        and "schema st' = Some (currentSchema c)"
        and "name st' = currentName c" and "id_val st' = currentId c"
      and "parents st' = parentLinks c"
        and "priv_path st' = foldl (\<lambda>p seg. regex_strip seg p) (priv_path ?st1) pre'"
        by blast
      then show ?thesis
        using setRecord_loop_id [OF Cons.prems(1) None True plain(1), of ns] pre by simp
    next
      case False
      from None False Cons.prems(2) have c: "c = context_of st sch" and rest: "rest = n # ns"
        by (simp_all add: context_of_def)
      from rest Cons.prems(3) have "pre = []" by simp
      then show ?thesis
        using setRecord_loop_stop [OF Cons.prems(1) None False, of ns] c Cons.prems(1)
        by (simp add: context_of_def)
    qed
  qed
qed

text \<open>
  Claim C2, amended. \<^verbatim>\<open>setRecord\<close> goes through the segments of \<^verbatim>\<open>_path\<close> from left to
  right and ends with the schema, name, id and parent links of the specification's state
  machine: a relationship name (tested first) pushes the parent link, rebinds schema and
  name and resets the id; a valid id sets the id; any other segment stops the scan. The
  segments before the stop, and only they, have been trimmed from \<^verbatim>\<open>_path\<close>; the stop
  itself leaves \<^verbatim>\<open>_path\<close> as the earlier trims left it. This is for scans whose consumed
  segments are free of regular-expression syntax characters.
\<close>

theorem setRecord_chain_scan:
  assumes "schema st = Some sch"
    and "chain_scan \<lparr>currentSchema = sch, currentName = name st, currentId = id_val st,
                     parentLinks = parents st\<rparr>
           (str_split CHR ''.'' (priv_path st)) = (c, rest)"
    and "str_split CHR ''.'' (priv_path st) = consumed @ rest"
    and "list_all regex_plain consumed"
  shows "\<exists>st'. setRecord st = Inr st'
           \<and> schema st' = Some (currentSchema c)
           \<and> name st' = currentName c
           \<and> id_val st' = currentId c
           \<and> parents st' = parentLinks c
           \<and> priv_path st' = foldl (\<lambda>p seg. regex_strip seg p) (priv_path st) consumed"
proof -
  from assms(2) have "chain_scan (context_of st sch) (str_split CHR ''.'' (priv_path st)) = (c, rest)"
    by (simp add: context_of_def)
  from setRecord_loop_refines [OF assms(1) this assms(3) assms(4)]
  obtain st' where st': "setRecord_loop st (str_split CHR ''.'' (priv_path st)) = Inr st'"
      "schema st' = Some (currentSchema c)"
      "name st' = currentName c" "id_val st' = currentId c" "parents st' = parentLinks c"
      "priv_path st' = foldl (\<lambda>p seg. regex_strip seg p) (priv_path st) consumed"
    by blast
  then show ?thesis by (simp add: setRecord_def)
qed

lemma ex_isId_5: "priv_isId (JString ''5'')"
  by (simp add: priv_isId_def string_to_number_is_nan_def trim_whitespace_def str_whitespace_def
      str_decimal_literal_def str_unsigned_decimal_literal_def decimal_digit_def)

lemma ex_not_isId_top5: "\<not> priv_isId (JString ''top5'')"
  by (simp add: priv_isId_def string_to_number_is_nan_def trim_whitespace_def str_whitespace_def
      str_decimal_literal_def str_unsigned_decimal_literal_def decimal_digit_def
      non_decimal_integer_literal_def)

text \<open>
  Claim C2, as stated, fails on \<^verbatim>\<open>users.5.top5\<close>: the scan stops at \<^verbatim>\<open>top5\<close>, but trimming
  the id \<^verbatim>\<open>5\<close> has already removed the \<^verbatim>\<open>5\<close> of \<^verbatim>\<open>top5\<close>, so the segment that stopped the
  scan is not in \<^verbatim>\<open>_path\<close>, which is \<^verbatim>\<open>top\<close>.
\<close>

theorem setRecord_counterexample:
  "setBase ex_schemas (MantraData ''users.5.top5'' ''MantraForm'')
     = Inr (ex_after_base ''users.5.top5'' ''5.top5'')
   \<and> chain_scan \<lparr>currentSchema = ex_users, currentName = ''users'', currentId = [],
                  parentLinks = []\<rparr> [''5'', ''top5'']
     = (\<lparr>currentSchema = ex_users, currentName = ''users'', currentId = ''5'',
         parentLinks = []\<rparr>, [''top5''])
   \<and> setRecord (ex_after_base ''users.5.top5'' ''5.top5'')
     = Inr ((ex_after_base ''users.5.top5'' ''5.top5'')\<lparr>id_val := ''5'', priv_path := ''top''\<rparr>)
   \<and> ''top5'' \<notin> set (str_split CHR ''.'' ''top'')"
proof -
  have a: "setBase ex_schemas (MantraData ''users.5.top5'' ''MantraForm'')
     = Inr (ex_after_base ''users.5.top5'' ''5.top5'')"
    by (simp add: setBase_def getFirstPath_takeWhile MantraData_def ex_schemas_def
        priv_isSchema_def updatePath_def priv_updatePath_def priv_setBaseSchema_def
        priv_setName_def priv_trimPath_def regex_plain_eval regex_syntax_char_def
        regex_strip.simps line_terminator_def ex_after_base_def Let_def)
  have b: "chain_scan \<lparr>currentSchema = ex_users, currentName = ''users'', currentId = [],
                  parentLinks = []\<rparr> [''5'', ''top5'']
     = (\<lparr>currentSchema = ex_users, currentName = ''users'', currentId = ''5'',
         parentLinks = []\<rparr>, [''top5''])"
    by (simp add: ex_users_def ex_posts_def ex_isId_5 ex_not_isId_top5)
  have c: "setRecord (ex_after_base ''users.5.top5'' ''5.top5'')
     = Inr ((ex_after_base ''users.5.top5'' ''5.top5'')\<lparr>id_val := ''5'', priv_path := ''top''\<rparr>)"
    by (simp add: setRecord_def ex_after_base_def MantraData_def str_split_eval
        priv_isRelationship_def ex_users_def ex_posts_def ex_isId_5 ex_not_isId_top5
        priv_setId_def priv_trimPath_def regex_plain_eval regex_syntax_char_def
        regex_strip.simps line_terminator_def)
  have d: "''top5'' \<notin> set (str_split CHR ''.'' ''top'')"
    by (simp add: str_split_eval)
  from a b c d show ?thesis by blast
qed

theorem setRecord_chain_scan_witness:
  "\<exists>st'. setRecord (ex_after_base ''users.5.posts.create'' ''5.posts.create'') = Inr st'
     \<and> schema st' = Some ex_posts
     \<and> name st' = ''posts''
     \<and> id_val st' = []
     \<and> parents st' = [ParentLink (Some ex_users) ''users'' ''5'']
     \<and> priv_path st' = ''create''"
proof -
  let ?st = "ex_after_base ''users.5.posts.create'' ''5.posts.create''"
  have split: "str_split CHR ''.'' (priv_path ?st) = [''5'', ''posts''] @ [''create'']"
    by (simp add: ex_after_base_def str_split_eval)
  have sch: "schema ?st = Some ex_users"
    by (simp add: ex_after_base_def)
  have scan: "chain_scan \<lparr>currentSchema = ex_users, currentName = name ?st,
                  currentId = id_val ?st, parentLinks = parents ?st\<rparr>
                (str_split CHR ''.'' (priv_path ?st))
     = (\<lparr>currentSchema = ex_posts, currentName = ''posts'', currentId = [],
         parentLinks = [ParentLink (Some ex_users) ''users'' ''5'']\<rparr>, [''create''])"
    unfolding split
    by (simp add: ex_after_base_def MantraData_def ex_users_def ex_posts_def ex_isId_5
        priv_isId_def string_to_number_is_nan_def trim_whitespace_def str_whitespace_def
        str_decimal_literal_def str_unsigned_decimal_literal_def decimal_digit_def
        non_decimal_integer_literal_def)
  have plain: "list_all regex_plain [''5'', ''posts'']"
    by (simp add: regex_plain_eval regex_syntax_char_def)
  have strip: "foldl (\<lambda>p seg. regex_strip seg p) (priv_path ?st) [''5'', ''posts''] = ''create''"
    by (simp add: ex_after_base_def regex_strip.simps line_terminator_def)
  from setRecord_chain_scan [OF sch scan split plain, unfolded strip] show ?thesis by simp
qed

text \<open>
  The condition on the consumed segments is needed: \<^verbatim>\<open>+5\<close> is a valid id, and it contains
  a regular-expression syntax character. When the scan consumes it, \<^verbatim>\<open>_trimPath\<close> builds
  \<^verbatim>\<open>(+5).?\<close>, which is no pattern: the source throws a \<^verbatim>\<open>SyntaxError\<close>, and the model
  marks the call.
\<close>

lemma id_with_regex_syntax:
  "priv_isId (JString ''+5'') \<and> \<not> regex_plain ''+5''
   \<and> priv_setId st ''+5'' = Inl RegExpOutsideModel"
  by (simp add: priv_isId_def string_to_number_is_nan_def trim_whitespace_def str_whitespace_def
      str_decimal_literal_def str_unsigned_decimal_literal_def decimal_digit_def
      regex_plain_eval regex_syntax_char_def priv_setId_def priv_trimPath_def)

subsection \<open>Split, join and trimming on well-separated paths\<close>

lemma regex_strip_join_head:
  assumes "n \<noteq> []" and "\<not> sublist n (join_dot ns)"
  shows "regex_strip n (join_dot (n # ns)) = join_dot ns"
proof (cases ns)
  case Nil
  then show ?thesis by (simp add: regex_strip_self)
next
  case (Cons t ts)
  then have "regex_strip n (join_dot (n # ns)) = regex_strip n (join_dot ns)"
    by (simp add: regex_strip_head)
  with assms show ?thesis by (simp add: regex_strip_absent)
qed

lemma join_dot_Cons: "join_dot (x # xs) = x @ concat (map ((#) CHR ''.'') xs)"
  by (induction xs arbitrary: x) simp_all

lemma regex_plain_no_dot: "regex_plain s \<Longrightarrow> CHR ''.'' \<notin> set s"
  by (auto simp: regex_plain_def list_ex_iff regex_syntax_char_def)

lemma str_split_no_dot:
  assumes "CHR ''.'' \<notin> set s"
  shows "str_split CHR ''.'' s = [s]"
proof -
  from assms have d: "dropWhile (\<lambda>c. c \<noteq> CHR ''.'') s = []" by auto
  from assms have t: "takeWhile (\<lambda>c. c \<noteq> CHR ''.'') s = s"
    by (auto simp: takeWhile_eq_all_conv)
  from str_split_last [OF d] t show ?thesis by simp
qed

lemma str_split_append_dot:
  assumes "CHR ''.'' \<notin> set s"
  shows "str_split CHR ''.'' (s @ CHR ''.'' # r) = s # str_split CHR ''.'' r"
proof -
  from assms have d: "dropWhile (\<lambda>c. c \<noteq> CHR ''.'') (s @ CHR ''.'' # r) = CHR ''.'' # r"
    by (auto simp: dropWhile_append3)
  from assms have t: "takeWhile (\<lambda>c. c \<noteq> CHR ''.'') (s @ CHR ''.'' # r) = s"
    by (subst takeWhile_append2) auto
  from str_split_more [OF d] t show ?thesis by simp
qed

lemma str_split_join_dot:
  assumes "ss \<noteq> []" and "\<forall>s\<in>set ss. CHR ''.'' \<notin> set s"
  shows "str_split CHR ''.'' (join_dot ss) = ss"
  using assms
proof (induction ss rule: join_dot.induct)
  case 1
  then show ?case by simp
next
  case (2 s)
  then show ?case by (simp add: str_split_no_dot)
next
  case (3 s t ts)
  then show ?case by (simp add: str_split_append_dot)
qed

lemma join_dot_str_split: "join_dot (str_split CHR ''.'' p) = p"
proof (induction "length p" arbitrary: p rule: less_induct)
  case less
  let ?tw = "takeWhile (\<lambda>c. c \<noteq> CHR ''.'') p"
  show ?case
  proof (cases "dropWhile (\<lambda>c. c \<noteq> CHR ''.'') p")
    case Nil
    then have "?tw = p" by (auto simp: takeWhile_eq_all_conv)
    with str_split_last [OF Nil] show ?thesis by simp
  next
    case (Cons x rest)
    have x: "x = CHR ''.''"
      using hd_dropWhile [of "\<lambda>c. c \<noteq> CHR ''.''" p] Cons by auto
    have "?tw @ dropWhile (\<lambda>c. c \<noteq> CHR ''.'') p = p"
      by (rule takeWhile_dropWhile_id)
    then have p: "?tw @ CHR ''.'' # rest = p"
      unfolding Cons x .
    have "length (?tw @ CHR ''.'' # rest) = length p"
      unfolding p ..
    then have "length rest < length p" by simp
    from less [OF this] have ih: "join_dot (str_split CHR ''.'' rest) = rest" .
    obtain y ys where ys: "str_split CHR ''.'' rest = y # ys"
      using str_split_not_Nil [of "CHR ''.''" rest] by (cases "str_split CHR ''.'' rest") auto
    have "join_dot (str_split CHR ''.'' p) = join_dot (?tw # y # ys)"
      unfolding str_split_more [OF Cons] ys ..
    also have "\<dots> = ?tw @ CHR ''.'' # join_dot (y # ys)" by simp
    also have "\<dots> = ?tw @ CHR ''.'' # rest" using ih unfolding ys by simp
    finally show ?thesis unfolding p .
  qed
qed

lemma well_separated_plain: "well_separated ss \<Longrightarrow> list_all regex_plain ss"
  by (induction ss) simp_all

lemma well_separated_append: "well_separated (xs @ ys) \<Longrightarrow> well_separated ys"
  by (induction xs) simp_all

subsection \<open>The resolved path\<close>

lemma setRecord_loop_separated:
  assumes "schema st = Some sch"
    and "chain_scan (context_of st sch) segs = (c, rest)"
    and "segs = pre @ rest"
    and "well_separated segs"
    and "priv_path st = join_dot segs"
    and "path st \<noteq> []"
  shows "\<exists>st' kept. setRecord_loop st segs = Inr st'
           \<and> priv_path st' = join_dot rest
           \<and> subseq kept pre
           \<and> path st' = path st @ concat (map ((#) CHR ''.'') kept)
           \<and> subseq (map pl_name (parentLinks c) @ [currentName c])
                 (map pl_name (parents st) @ name st # kept)"
  using assms
proof (induction segs arbitrary: st sch pre)
  case Nil
  then show ?case by (auto simp: context_of_def)
next
  case (Cons n ns)
  let ?found = "find (\<lambda>rel. schema_name rel = n)
                  (case relationships sch of None \<Rightarrow> [] | Some rels \<Rightarrow> rels)"
  from Cons.prems(4) have n: "n \<noteq> []" "regex_plain n" "\<not> sublist n (join_dot ns)"
    and sep: "well_separated ns" by simp_all
  from Cons.prems(5) n have strip: "regex_strip n (priv_path st) = join_dot ns"
    by (simp add: regex_strip_join_head)
  show ?case
  proof (cases ?found)
    case (Some rel)
    let ?st1 = "st\<lparr>parents := parents st @ [ParentLink (Some sch) (name st) (id_val st)],
                 name := n, schema := Some rel, id_val := [],
                 path := path st @ (if path st = [] then [] else ''.'') @ n,
                 priv_path := regex_strip n (priv_path st)\<rparr>"
    from Some Cons.prems(2) have scan: "chain_scan (context_of ?st1 rel) ns = (c, rest)"
      by (simp add: context_of_def)
    from chain_scan_suffix [OF scan] obtain pre' where ns: "ns = pre' @ rest" ..
    with Cons.prems(3) have pre: "pre = n # pre'" by simp
    have s1: "schema ?st1 = Some rel" and p1: "priv_path ?st1 = join_dot ns"
      and q1: "path ?st1 \<noteq> []"
      using strip n(1) by simp_all
    from Cons.IH [OF s1 scan ns sep p1 q1]
    obtain st' kept where st': "setRecord_loop ?st1 ns = Inr st'"
      "priv_path st' = join_dot rest" "subseq kept pre'"
      "path st' = path ?st1 @ concat (map ((#) CHR ''.'') kept)"
      "subseq (map pl_name (parentLinks c) @ [currentName c])
         (map pl_name (parents ?st1) @ name ?st1 # kept)"
      by blast
    from st'(5) have "subseq (map pl_name (parentLinks c) @ [currentName c])
         (map pl_name (parents st) @ name st # n # kept)" by simp
    moreover from st'(3) pre have "subseq (n # kept) pre" by simp
    moreover from st'(4) Cons.prems(6)
    have "path st' = path st @ concat (map ((#) CHR ''.'') (n # kept))" by simp
    moreover from st'(1) have "setRecord_loop st (n # ns) = Inr st'"
      unfolding setRecord_loop_relationship [OF Cons.prems(1) Some n(2)] .
    ultimately show ?thesis using st'(2) by blast
  next
    case None
    show ?thesis
    proof (cases "priv_isId (JString n)")
      case True
      let ?st1 = "st\<lparr>id_val := n, priv_path := regex_strip n (priv_path st)\<rparr>"
      from None True Cons.prems(2) have scan: "chain_scan (context_of ?st1 sch) ns = (c, rest)"
        by (simp add: context_of_def)
      from chain_scan_suffix [OF scan] obtain pre' where ns: "ns = pre' @ rest" ..
      with Cons.prems(3) have pre: "pre = n # pre'" by simp
      have s1: "schema ?st1 = Some sch" and p1: "priv_path ?st1 = join_dot ns"
        and q1: "path ?st1 \<noteq> []"
        using strip Cons.prems(1) Cons.prems(6) by simp_all
      from Cons.IH [OF s1 scan ns sep p1 q1]
      obtain st' kept where st': "setRecord_loop ?st1 ns = Inr st'"
        "priv_path st' = join_dot rest" "subseq kept pre'"
        "path st' = path ?st1 @ concat (map ((#) CHR ''.'') kept)"
        "subseq (map pl_name (parentLinks c) @ [currentName c])
           (map pl_name (parents ?st1) @ name ?st1 # kept)"
        by blast
      from st'(5) have "subseq (map pl_name (parentLinks c) @ [currentName c])
           (map pl_name (parents st) @ name st # kept)" by simp
      moreover from st'(3) pre have "subseq kept pre" by (auto intro: list_emb_Cons)
      moreover from st'(4) have "path st' = path st @ concat (map ((#) CHR ''.'') kept)" by simp
      moreover from st'(1) have "setRecord_loop st (n # ns) = Inr st'"
        unfolding setRecord_loop_id [OF Cons.prems(1) None True n(2)] .
      ultimately show ?thesis using st'(2) by blast
    next
      case False
      from None False Cons.prems(2) have rest: "rest = n # ns" and c: "c = context_of st sch"
        by (simp_all add: context_of_def)
      with Cons.prems(3) have pre: "pre = []" by simp
      have "setRecord_loop st (n # ns) = Inr st"
        by (rule setRecord_loop_stop [OF Cons.prems(1) None False])
      moreover from c have "subseq (map pl_name (parentLinks c) @ [currentName c])
           (map pl_name (parents st) @ name st # [])" by (simp add: context_of_def)
      moreover have "subseq [] pre" by simp
      moreover have "path st = path st @ concat (map ((#) CHR ''.'') [])" by simp
      ultimately show ?thesis using Cons.prems(5) rest by blast
    qed
  qed
qed

lemma setBase_separated:
  assumes "str_split CHR ''.'' p = root # others"
    and "well_separated (root # others)"
    and "schemas root = Some sch"
  shows "setBase schemas (MantraData p b) =
           Inr ((MantraData p b)\<lparr>name := root, schema := Some sch, path := root,
                                 priv_path := join_dot others\<rparr>)"
proof -
  from assms(1) have first: "getFirstPath p = root" by (simp add: getFirstPath_def)
  from assms(1) have "join_dot (root # others) = p"
    using join_dot_str_split [of p] by simp
  with assms(2) have strip: "regex_strip root p = join_dot others"
    using regex_strip_join_head [of root others] by simp
  from assms(2) have "regex_plain root" by simp
  with first assms(3) strip show ?thesis
    by (simp add: setBase_def Let_def priv_isSchema_def updatePath_def priv_trimPath_plain
        priv_updatePath_def priv_setBaseSchema_def priv_setName_def MantraData_def)
qed

text \<open>
  Claim C1, amended. Let the segments of the input be well separated and the first one a
  registered schema. Then base resolution removes exactly the first segment and its
  separator from \<^verbatim>\<open>_path\<close> and \<^verbatim>\<open>path\<close> is that segment; and when further segments follow,
  chain resolution removes exactly the segments it consumes, each once and with its
  separator, so that \<^verbatim>\<open>_path\<close> is the dot-join of the segments not consumed, while \<^verbatim>\<open>path\<close>
  is the dot-join of the first segment and of consumed segments in their original order,
  none of them twice and none of the relationship names that were entered missing: the
  names of the parent links followed by the current name are all in \<^verbatim>\<open>path\<close>, in this
  order. Whether a consumed id is in \<^verbatim>\<open>path\<close> is not part of the statement.
\<close>

theorem resolved_path_separated:
  assumes "str_split CHR ''.'' p = root # others"
    and "well_separated (root # others)"
    and "schemas root = Some sch"
  shows "\<exists>st1. setBase schemas (MantraData p b) = Inr st1
           \<and> path st1 = root
           \<and> priv_path st1 = join_dot others
           \<and> (\<forall>c rest consumed.
                 others \<noteq> []
                 \<and> chain_scan \<lparr>currentSchema = sch, currentName = root, currentId = [],
                                parentLinks = []\<rparr> others = (c, rest)
                 \<and> others = consumed @ rest \<longrightarrow>
                 (\<exists>st2 kept. setRecord st1 = Inr st2
                    \<and> priv_path st2 = join_dot rest
                    \<and> subseq kept consumed
                    \<and> path st2 = join_dot (root # kept)
                    \<and> subseq (map pl_name (parentLinks c) @ [currentName c])
                          (root # kept)))"
proof -
  let ?st1 = "(MantraData p b)\<lparr>name := root, schema := Some sch, path := root,
                                 priv_path := join_dot others\<rparr>"
  have base: "setBase schemas (MantraData p b) = Inr ?st1"
    using assms by (rule setBase_separated)
  from assms(2) have root: "root \<noteq> []" and sep: "well_separated others" by simp_all
  have chain: "\<exists>st2 kept. setRecord ?st1 = Inr st2 \<and> priv_path st2 = join_dot rest
        \<and> subseq kept consumed \<and> path st2 = join_dot (root # kept)
        \<and> subseq (map pl_name (parentLinks c) @ [currentName c]) (root # kept)"
    if others: "others \<noteq> []"
      and scan: "chain_scan \<lparr>currentSchema = sch, currentName = root, currentId = [],
                             parentLinks = []\<rparr> others = (c, rest)"
      and app: "others = consumed @ rest"
    for c rest consumed
  proof -
    from sep have "\<forall>s\<in>set others. CHR ''.'' \<notin> set s"
      using well_separated_plain [of others] by (auto simp: list_all_iff regex_plain_no_dot)
    with others have split: "str_split CHR ''.'' (priv_path ?st1) = others"
      by (simp add: str_split_join_dot)
    have s1: "schema ?st1 = Some sch" by simp
    from scan have scan1: "chain_scan (context_of ?st1 sch) others = (c, rest)"
      by (simp add: context_of_def MantraData_def)
    have p1: "priv_path ?st1 = join_dot others" by simp
    from root have q1: "path ?st1 \<noteq> []" by simp
    from setRecord_loop_separated [OF s1 scan1 app sep p1 q1]
    obtain st2 kept where st2: "setRecord_loop ?st1 others = Inr st2"
      "priv_path st2 = join_dot rest" "subseq kept consumed"
      "path st2 = path ?st1 @ concat (map ((#) CHR ''.'') kept)"
      "subseq (map pl_name (parentLinks c) @ [currentName c])
         (map pl_name (parents ?st1) @ name ?st1 # kept)"
      by blast
    from st2(5) have names: "subseq (map pl_name (parentLinks c) @ [currentName c]) (root # kept)"
      by (simp add: MantraData_def)
    from st2(4) have "path st2 = join_dot (root # kept)"
      by (simp add: join_dot_Cons)
    with st2(1,2,3) names show ?thesis
      unfolding setRecord_def split by blast
  qed
  show ?thesis
  proof (rule exI [of _ ?st1], intro conjI allI impI)
    show "setBase schemas (MantraData p b) = Inr ?st1" by (rule base)
    show "path ?st1 = root" by simp
    show "priv_path ?st1 = join_dot others" by simp
    fix c rest consumed
    assume "others \<noteq> []
        \<and> chain_scan \<lparr>currentSchema = sch, currentName = root, currentId = [],
                       parentLinks = []\<rparr> others = (c, rest)
        \<and> others = consumed @ rest"
    then show "\<exists>st2 kept. setRecord ?st1 = Inr st2 \<and> priv_path st2 = join_dot rest
        \<and> subseq kept consumed \<and> path st2 = join_dot (root # kept)
        \<and> subseq (map pl_name (parentLinks c) @ [currentName c]) (root # kept)"
      using chain by blast
  qed
qed

lemma ex_isId_15: "priv_isId (JString ''15'')"
  by (simp add: priv_isId_def string_to_number_is_nan_def trim_whitespace_def str_whitespace_def
      str_decimal_literal_def str_unsigned_decimal_literal_def decimal_digit_def)

lemma ex_not_isId_names:
  "\<not> priv_isId (JString ''posts'')" "\<not> priv_isId (JString ''create'')"
  by (simp_all add: priv_isId_def string_to_number_is_nan_def trim_whitespace_def
      str_whitespace_def str_decimal_literal_def str_unsigned_decimal_literal_def
      decimal_digit_def non_decimal_integer_literal_def)

text \<open>
  Claim C1, as stated, fails on \<^verbatim>\<open>users.5.posts.15\<close>: consuming the id \<^verbatim>\<open>5\<close> removes two
  occurrences of its text from \<^verbatim>\<open>_path\<close>, the segment \<^verbatim>\<open>5\<close> and the \<^verbatim>\<open>5\<close> of \<^verbatim>\<open>15\<close>, where
  removing one occurrence of the segment leaves \<^verbatim>\<open>posts.15\<close>. After resolution \<^verbatim>\<open>_path\<close> is
  \<^verbatim>\<open>1\<close> and \<^verbatim>\<open>path\<close> is \<^verbatim>\<open>users.posts\<close>.
\<close>

theorem resolved_path_counterexample:
  "setBase ex_schemas (MantraData ''users.5.posts.15'' ''MantraForm'')
     = Inr (ex_after_base ''users.5.posts.15'' ''5.posts.15'')
   \<and> setRecord (ex_after_base ''users.5.posts.15'' ''5.posts.15'')
     = Inr ((ex_after_base ''users.5.posts.15'' ''5.posts.15'')
             \<lparr>parents := [ParentLink (Some ex_users) ''users'' ''5''],
              name := ''posts'', schema := Some ex_posts, id_val := ''15'',
              path := ''users.posts'', priv_path := ''1''\<rparr>)
   \<and> regex_strip ''5'' ''5.posts.15'' = ''posts.1''
   \<and> join_dot (remove1 ''5'' (str_split CHR ''.'' ''5.posts.15'')) = ''posts.15''"
proof -
  have a: "setBase ex_schemas (MantraData ''users.5.posts.15'' ''MantraForm'')
     = Inr (ex_after_base ''users.5.posts.15'' ''5.posts.15'')"
    using ex_setBase [of "''5.posts.15''"] by (simp add: regex_strip.simps)
  have b: "setRecord (ex_after_base ''users.5.posts.15'' ''5.posts.15'')
     = Inr ((ex_after_base ''users.5.posts.15'' ''5.posts.15'')
             \<lparr>parents := [ParentLink (Some ex_users) ''users'' ''5''],
              name := ''posts'', schema := Some ex_posts, id_val := ''15'',
              path := ''users.posts'', priv_path := ''1''\<rparr>)"
    by (simp add: setRecord_def ex_after_base_def MantraData_def str_split_eval
        priv_isRelationship_def ex_users_def ex_posts_def ex_isId_5 ex_isId_15
        ex_not_isId_names priv_setId_def priv_trimPath_def regex_plain_eval
        regex_syntax_char_def regex_strip.simps line_terminator_def
        priv_setRelationship_def priv_setRelationshipSchema_def priv_setName_def
        priv_addParent_def priv_resetId_def updatePath_def priv_updatePath_def Let_def)
  have c: "regex_strip ''5'' ''5.posts.15'' = ''posts.1''"
    by (simp add: regex_strip.simps line_terminator_def)
  have d: "join_dot (remove1 ''5'' (str_split CHR ''.'' ''5.posts.15'')) = ''posts.15''"
    by (simp add: str_split_eval)
  from a b c d show ?thesis by blast
qed

theorem resolved_path_separated_witness:
  "\<exists>st1. setBase ex_schemas (MantraData ''users.5.posts.create'' ''MantraForm'') = Inr st1
     \<and> path st1 = ''users''
     \<and> priv_path st1 = ''5.posts.create''
     \<and> (\<exists>st2 kept. setRecord st1 = Inr st2
           \<and> priv_path st2 = ''create''
           \<and> subseq kept [''5'', ''posts'']
           \<and> path st2 = join_dot (''users'' # kept)
           \<and> subseq [''users'', ''posts''] (''users'' # kept))"
proof -
  have split: "str_split CHR ''.'' ''users.5.posts.create''
      = ''users'' # [''5'', ''posts'', ''create'']"
    by (simp add: str_split_eval)
  have sep: "well_separated (''users'' # [''5'', ''posts'', ''create''])"
    by (simp add: regex_plain_eval regex_syntax_char_def sublist_code prefix_code)
  have reg: "ex_schemas ''users'' = Some ex_users"
    by (simp add: ex_schemas_def)
  have scan: "chain_scan \<lparr>currentSchema = ex_users, currentName = ''users'', currentId = [],
                  parentLinks = []\<rparr> [''5'', ''posts'', ''create'']
     = (\<lparr>currentSchema = ex_posts, currentName = ''posts'', currentId = [],
         parentLinks = [ParentLink (Some ex_users) ''users'' ''5'']\<rparr>, [''create''])"
    by (simp add: ex_users_def ex_posts_def ex_isId_5 ex_not_isId_names)
  from resolved_path_separated [of "''users.5.posts.create''" "''users''"
      "[''5'', ''posts'', ''create'']" ex_schemas ex_users "''MantraForm''", OF split sep reg]
  obtain st1 where base: "setBase ex_schemas (MantraData ''users.5.posts.create'' ''MantraForm'') = Inr st1"
    and p1: "path st1 = ''users''"
    and r1: "priv_path st1 = join_dot [''5'', ''posts'', ''create'']"
    and chain: "\<And>c rest consumed.
        [''5'', ''posts'', ''create''] \<noteq> []
        \<and> chain_scan \<lparr>currentSchema = ex_users, currentName = ''users'', currentId = [],
                       parentLinks = []\<rparr> [''5'', ''posts'', ''create''] = (c, rest)
        \<and> [''5'', ''posts'', ''create''] = consumed @ rest \<Longrightarrow>
        \<exists>st2 kept. setRecord st1 = Inr st2 \<and> priv_path st2 = join_dot rest
          \<and> subseq kept consumed \<and> path st2 = join_dot (''users'' # kept)
          \<and> subseq (map pl_name (parentLinks c) @ [currentName c]) (''users'' # kept)"
    by blast
  have ne: "[''5'', ''posts'', ''create''] \<noteq> ([] :: string list)" by simp
  have app: "[''5'', ''posts'', ''create''] = [''5'', ''posts''] @ [''create'']" by simp
  from chain [OF conjI [OF ne conjI [OF scan app]]]
  have c2: "\<exists>st2 kept. setRecord st1 = Inr st2 \<and> priv_path st2 = ''create''
          \<and> subseq kept [''5'', ''posts''] \<and> path st2 = join_dot (''users'' # kept)
          \<and> subseq [''users'', ''posts''] (''users'' # kept)"
    by simp
  have j1: "join_dot [''5'', ''posts'', ''create''] = ''5.posts.create''" by simp
  show ?thesis
    by (rule exI [of _ st1], intro conjI)
      (rule base, rule p1, rule r1 [unfolded j1], rule c2)
qed

text \<open>
  Claim C9 at the input \<^verbatim>\<open>users.5\<close>, a registered root followed by a valid id: base and
  chain resolution leave \<^verbatim>\<open>_path\<close> empty, but \<^verbatim>\<open>path\<close> is \<^verbatim>\<open>users\<close> and not the input,
  because \<^verbatim>\<open>_setId\<close> trims the id from \<^verbatim>\<open>_path\<close> without appending it to \<^verbatim>\<open>path\<close>.
\<close>

theorem round_trip_failing_input:
  "setBase ex_schemas (MantraData ''users.5'' ''MantraForm'')
     = Inr (ex_after_base ''users.5'' ''5'')
   \<and> setRecord (ex_after_base ''users.5'' ''5'')
     = Inr ((ex_after_base ''users.5'' ''5'')\<lparr>id_val := ''5'', priv_path := []\<rparr>)
   \<and> path ((ex_after_base ''users.5'' ''5'')\<lparr>id_val := ''5'', priv_path := []\<rparr>) = ''users''
   \<and> ''users'' \<noteq> ''users.5''"
proof -
  have a: "setBase ex_schemas (MantraData ''users.5'' ''MantraForm'')
     = Inr (ex_after_base ''users.5'' ''5'')"
    using ex_setBase [of "''5''"] by (simp add: regex_strip.simps)
  have b: "setRecord (ex_after_base ''users.5'' ''5'')
     = Inr ((ex_after_base ''users.5'' ''5'')\<lparr>id_val := ''5'', priv_path := []\<rparr>)"
    by (simp add: setRecord_def ex_after_base_def MantraData_def str_split_eval
        priv_isRelationship_def ex_users_def ex_posts_def ex_isId_5
        priv_setId_def priv_trimPath_def regex_plain_eval
        regex_syntax_char_def regex_strip.simps line_terminator_def)
  have c: "path ((ex_after_base ''users.5'' ''5'')\<lparr>id_val := ''5'', priv_path := []\<rparr>) = ''users''"
    by (simp add: ex_after_base_def)
  from a b c show ?thesis by simp
qed

subsection \<open>Action resolution\<close>

text \<open>
  Claim C5. On a context with a schema, \<^verbatim>\<open>setAction\<close> binds \<^verbatim>\<open>action\<close> to the action stored
  under the first segment of \<^verbatim>\<open>_path\<close> when the schema's \<^verbatim>\<open>actions\<close> are defined and have
  that key; otherwise to the built-in \<^verbatim>\<open>update\<close> (which needs a fetch) when \<^verbatim>\<open>id\<close> is not
  empty, and to the built-in \<^verbatim>\<open>create\<close> (which needs none) when it is.
\<close>

theorem setAction_spec:
  assumes "schema st = Some s"
  shows "(\<forall>acts d. actions s = Some acts \<and> map_of acts (getFirstPath (priv_path st)) = Some d
            \<longrightarrow> setAction st = Inr (st\<lparr>action := Some d\<rparr>))
       \<and> (actions s = None
            \<or> (\<exists>acts. actions s = Some acts \<and> map_of acts (getFirstPath (priv_path st)) = None)
            \<longrightarrow> setAction st =
                Inr (st\<lparr>action := Some (if id_val st \<noteq> [] then DEFAULT_ACTIONS_update
                                         else DEFAULT_ACTIONS_create)\<rparr>))
       \<and> needFetch DEFAULT_ACTIONS_update \<and> \<not> needFetch DEFAULT_ACTIONS_create
       \<and> action_name DEFAULT_ACTIONS_update = ''update''
       \<and> action_name DEFAULT_ACTIONS_create = ''create''"
  using assms
  by (auto simp: setAction_def priv_getAction_def priv_isCustomAction_def
      priv_getCustomAction_def priv_getDefaultAction_def priv_isUpdateAction_def
      first_segment_default DEFAULT_ACTIONS_update_def DEFAULT_ACTIONS_create_def Let_def)

theorem setAction_spec_witness:
  "setAction ((MantraData ''x'' ''MantraForm'')\<lparr>schema := Some ex_posts, priv_path := ''create''\<rparr>)
     = Inr ((MantraData ''x'' ''MantraForm'')
             \<lparr>schema := Some ex_posts, priv_path := ''create'', action := Some ex_create\<rparr>)
   \<and> setAction ((MantraData ''x'' ''MantraForm'')\<lparr>schema := Some ex_users, id_val := ''5'', priv_path := []\<rparr>)
     = Inr ((MantraData ''x'' ''MantraForm'')
             \<lparr>schema := Some ex_users, id_val := ''5'', priv_path := [],
              action := Some DEFAULT_ACTIONS_update\<rparr>)"
  using setAction_spec [of "(MantraData ''x'' ''MantraForm'')\<lparr>schema := Some ex_posts, priv_path := ''create''\<rparr>" ex_posts]
    setAction_spec [of "(MantraData ''x'' ''MantraForm'')\<lparr>schema := Some ex_users, id_val := ''5'', priv_path := []\<rparr>" ex_users]
  by (simp add: ex_posts_def ex_users_def getFirstPath_takeWhile)

text \<open>
  Claim C6. \<^verbatim>\<open>setAction\<close> changes the \<^verbatim>\<open>action\<close> field only: on a context with a schema it
  returns the context with a new \<^verbatim>\<open>action\<close>, and whenever it returns, \<^verbatim>\<open>_path\<close>, \<^verbatim>\<open>path\<close>,
  \<^verbatim>\<open>schema\<close>, \<^verbatim>\<open>name\<close>, \<^verbatim>\<open>id\<close> and \<^verbatim>\<open>parents\<close> are as before; a matched custom action is
  not removed from \<^verbatim>\<open>_path\<close>.
\<close>

theorem setAction_frame:
  "(\<forall>s. schema st = Some s \<longrightarrow> (\<exists>a. setAction st = Inr (st\<lparr>action := a\<rparr>)))
   \<and> (\<forall>st'. setAction st = Inr st' \<longrightarrow>
         st' = st\<lparr>action := action st'\<rparr>
         \<and> priv_path st' = priv_path st \<and> path st' = path st \<and> schema st' = schema st
         \<and> name st' = name st \<and> id_val st' = id_val st \<and> parents st' = parents st)"
  by (auto simp: setAction_def priv_getAction_def priv_isCustomAction_def
      priv_getCustomAction_def Let_def split: sum.splits option.splits bool.splits)

theorem setAction_frame_witness:
  "\<exists>a. setAction ((MantraData ''x'' ''MantraForm'')\<lparr>schema := Some ex_posts, priv_path := ''create''\<rparr>)
     = Inr ((MantraData ''x'' ''MantraForm'')\<lparr>schema := Some ex_posts, priv_path := ''create'', action := a\<rparr>)"
  using setAction_frame [of "(MantraData ''x'' ''MantraForm'')\<lparr>schema := Some ex_posts, priv_path := ''create''\<rparr>"]
  by simp

subsection \<open>Endpoint and alias\<close>

text \<open>
  Claim C10. \<^verbatim>\<open>getAlias\<close> throws a \<^verbatim>\<open>TypeError\<close> exactly when the component's \<^verbatim>\<open>model\<close> is
  undefined, and then so do \<^verbatim>\<open>setAlias\<close> and \<^verbatim>\<open>setEndpoint\<close>; the \<^verbatim>\<open>hasModel\<close> flag has no
  influence on the result. With a model, the alias is the model's name when that is a
  non-empty string, and the endpoint with hyphens for slashes when the name is undefined or
  empty.
\<close>

theorem getAlias_partial:
  "(getAlias st = Inl TypeError \<longleftrightarrow> model (component st) = None)
   \<and> (model (component st) = None \<longrightarrow>
        setAlias st = Inl TypeError \<and> setEndpoint st = Inl TypeError)
   \<and> getAlias (st\<lparr>component := (component st)\<lparr>hasModel := h\<rparr>\<rparr>) = getAlias st
   \<and> (\<forall>m. model (component st) = Some m \<longrightarrow>
        getAlias st =
          (case model_name m of
             None \<Rightarrow> Inr (replace_all_char CHR ''/'' CHR ''-'' (endpoint st))
           | Some n \<Rightarrow> if n = [] then Inr (replace_all_char CHR ''/'' CHR ''-'' (endpoint st))
                       else Inr n))"
  by (auto simp: getAlias_def setAlias_def setEndpoint_def split: option.splits)

theorem getAlias_partial_witness:
  "getAlias (ex_resolved\<lparr>component := ex_bare_component\<rparr>) = Inl TypeError
   \<and> setEndpoint (ex_resolved\<lparr>component := ex_bare_component\<rparr>) = Inl TypeError
   \<and> getAlias (ex_resolved\<lparr>endpoint := ''users/posts'',
         component := \<lparr>c_root = None, hasModel = Some True, model = Some \<lparr>model_name = None\<rparr>\<rparr>\<rparr>)
       = Inr ''users-posts''"
  using getAlias_partial [of "ex_resolved\<lparr>component := ex_bare_component\<rparr>"]
    getAlias_partial [of "ex_resolved\<lparr>endpoint := ''users/posts'',
         component := \<lparr>c_root = None, hasModel = Some True, model = Some \<lparr>model_name = None\<rparr>\<rparr>\<rparr>"]
  by (simp add: ex_bare_component_def replace_all_char_def)

text \<open>
  Claim C8, as stated, fails for a component without a model: \<^verbatim>\<open>setEndpoint\<close> throws a
  \<^verbatim>\<open>TypeError\<close> and sets no alias.
\<close>

theorem setEndpoint_counterexample:
  "setEndpoint (ex_resolved\<lparr>component := ex_bare_component\<rparr>) = Inl TypeError"
  by (simp add: setEndpoint_def setAlias_def getAlias_def ex_bare_component_def)

text \<open>
  Claim C8, amended. For a component that has a model, \<^verbatim>\<open>setEndpoint\<close> sets \<^verbatim>\<open>endpoint\<close> to
  \<^verbatim>\<open>path\<close> with every dot replaced by a slash, and \<^verbatim>\<open>alias\<close> to the model's name when that
  is a non-empty string, otherwise to the endpoint with every slash replaced by a hyphen.
  For a component without a model it throws a \<^verbatim>\<open>TypeError\<close>.
\<close>

theorem setEndpoint_spec:
  "(\<forall>m. model (component st) = Some m \<longrightarrow>
      setEndpoint st =
        Inr (st\<lparr>endpoint := replace_all_char CHR ''.'' CHR ''/'' (path st),
               alias_val :=
                 (case model_name m of
                    Some n \<Rightarrow>
                      if n \<noteq> [] then n
                      else replace_all_char CHR ''/'' CHR ''-''
                             (replace_all_char CHR ''.'' CHR ''/'' (path st))
                  | None \<Rightarrow>
                      replace_all_char CHR ''/'' CHR ''-''
                        (replace_all_char CHR ''.'' CHR ''/'' (path st)))\<rparr>))
   \<and> (model (component st) = None \<longrightarrow> setEndpoint st = Inl TypeError)"
  by (simp add: setEndpoint_def setAlias_def getAlias_def getEndpoint_def split: option.splits)

theorem setEndpoint_spec_witness:
  "setEndpoint (ex_resolved\<lparr>component := ex_widget_component\<rparr>)
     = Inr (ex_resolved\<lparr>component := ex_widget_component,
              endpoint := ''users/posts'', alias_val := ''Widget''\<rparr>)
   \<and> setEndpoint (ex_resolved\<lparr>component :=
         \<lparr>c_root = None, hasModel = Some True, model = Some \<lparr>model_name = None\<rparr>\<rparr>\<rparr>)
     = Inr (ex_resolved\<lparr>component :=
         \<lparr>c_root = None, hasModel = Some True, model = Some \<lparr>model_name = None\<rparr>\<rparr>,
              endpoint := ''users/posts'', alias_val := ''users-posts''\<rparr>)
   \<and> setEndpoint (MantraData ''users'' ''MantraForm'') = Inl TypeError"
  using setEndpoint_spec [of "ex_resolved\<lparr>component := ex_widget_component\<rparr>"]
    setEndpoint_spec [of "ex_resolved\<lparr>component :=
         \<lparr>c_root = None, hasModel = Some True, model = Some \<lparr>model_name = None\<rparr>\<rparr>\<rparr>"]
    setEndpoint_spec [of "MantraData ''users'' ''MantraForm''"]
  by (simp add: ex_widget_component_def ex_resolved_def MantraData_def replace_all_char_def)

end
